theory Spec2Isabelle
  imports Main
begin

section \<open>Data model\<close>

text \<open>
  Embedding of the registration and capacity code of the campus-events backend:
  \<^verbatim>\<open>backend/models/Event.js\<close>, \<^verbatim>\<open>backend/models/Registration.js\<close>,
  \<^verbatim>\<open>backend/models/User.js\<close> and \<^verbatim>\<open>backend/routes/registrations.js\<close>.

  MongoDB ObjectIds are natural numbers. The numeric fields of the schemas
  (\<^verbatim>\<open>maxCapacity\<close>, \<^verbatim>\<open>currentCount\<close>, \<^verbatim>\<open>fee.amount\<close>) hold integers in every
  path of the code (defaults 100, 0, 0 and \<^verbatim>\<open>$inc\<close> by 1 or -1), so they are
  \<^typ>\<open>int\<close>. A \<^verbatim>\<open>Date\<close> is its number of milliseconds, an \<^typ>\<open>int\<close>, and the
  clock read by \<^verbatim>\<open>new Date()\<close> is a parameter \<open>now\<close> of the handlers.
\<close>

type_synonym oid = nat

datatype role = Student | Faculty | Organizer | Admin | Authority | Hod | Principal | Registrar

datatype event_status = Draft | EvPending | EvApproved | Published | EvCancelled | Completed

datatype reg_status = Pending | Approved | Rejected | Cancelled | Attended | Absent

record user =
  user_id :: oid
  user_role :: role
  user_department :: "oid option"
  user_year :: "nat option"
  permissions :: "string list"

text \<open>The fields of the event schema that the registration routes read or write.\<close>

record event_doc =
  ev_status :: event_status
  organizer :: oid
  coOrganizers :: "oid list"
  maxCapacity :: int
  currentCount :: int
  approvalRequired :: bool
  deadline :: "int option"
  fee_amount :: int
  allowedRoles :: "role list"
  allowedDepartments :: "oid list"
  allowedYears :: "nat list"

text \<open>
  The fields of the registration schema that the routes write. The timestamps
  (\<^verbatim>\<open>approvedAt\<close>, \<^verbatim>\<open>attendanceTime\<close>, \<^verbatim>\<open>checkIn\<close>), the preferences and the
  feedback sub-documents are never read by the routes and are left out.
\<close>

record registration =
  reg_id :: oid
  reg_user :: oid
  reg_event :: oid
  reg_status :: reg_status
  approvedBy :: "oid option"
  rejectionReason :: "string option"
  cancellationReason :: "string option"
  attendanceMarked :: bool
  payment_required :: bool
  payment_amount :: "int option"

text \<open>
  The database: the events collection keyed by \<^verbatim>\<open>_id\<close>, the registrations
  collection in insertion order, and the next fresh ObjectId.
\<close>

record db =
  events :: "oid \<Rightarrow> event_doc option"
  registrations :: "registration list"
  next_oid :: oid

datatype response = Resp nat string

section \<open>Event model: virtuals and eligibility\<close>

text \<open>\<^verbatim>\<open>Event.js\<close> lines 261-267.\<close>

definition availableSlots :: "event_doc \<Rightarrow> int" where
  "availableSlots e = max 0 (maxCapacity e - currentCount e)"

definition isFull :: "event_doc \<Rightarrow> bool" where
  "isFull e = (currentCount e \<ge> maxCapacity e)"

text \<open>
  \<^verbatim>\<open>Array.includes\<close> on a value that may be \<^verbatim>\<open>undefined\<close>: an absent department or
  year is in no list. On the ObjectId arrays of a document, \<^verbatim>\<open>includes\<close> is membership
  by id.
\<close>

definition includes_opt :: "'a list \<Rightarrow> 'a option \<Rightarrow> bool" where
  "includes_opt xs v = (case v of None \<Rightarrow> False | Some x \<Rightarrow> x \<in> set xs)"

text \<open>\<^verbatim>\<open>Event.js\<close> lines 274-288.\<close>

definition canUserRegister :: "event_doc \<Rightarrow> user \<Rightarrow> bool" where
  "canUserRegister e u =
     (if allowedRoles e \<noteq> [] \<and> \<not> (user_role u \<in> set (allowedRoles e)) then False
      else if allowedDepartments e \<noteq> [] \<and> \<not> includes_opt (allowedDepartments e) (user_department u)
        then False
      else if allowedYears e \<noteq> [] \<and> \<not> includes_opt (allowedYears e) (user_year u) then False
      else True)"

text \<open>\<^verbatim>\<open>User.js\<close> lines 186-188.\<close>

definition hasPermission :: "user \<Rightarrow> string \<Rightarrow> bool" where
  "hasPermission u p = (p \<in> set (permissions u))"

section \<open>Registration model methods\<close>

text \<open>\<^verbatim>\<open>Registration.js\<close> lines 142-167, without the final \<^verbatim>\<open>save\<close>.\<close>

definition approve :: "registration \<Rightarrow> user \<Rightarrow> registration" where
  "approve r approver = r\<lparr>reg_status := Approved, approvedBy := Some (user_id approver)\<rparr>"

definition reject :: "registration \<Rightarrow> string option \<Rightarrow> user \<Rightarrow> registration" where
  "reject r reason approver =
     r\<lparr>reg_status := Rejected, rejectionReason := reason, approvedBy := Some (user_id approver)\<rparr>"

definition markAttendance :: "registration \<Rightarrow> bool \<Rightarrow> registration" where
  "markAttendance r present =
     r\<lparr>reg_status := (if present then Attended else Absent), attendanceMarked := True\<rparr>"

section \<open>Database operations\<close>

definition findById :: "oid \<Rightarrow> db \<Rightarrow> registration option" where
  "findById rid d = find (\<lambda>r. reg_id r = rid) (registrations d)"

definition countDocuments :: "(registration \<Rightarrow> bool) \<Rightarrow> db \<Rightarrow> int" where
  "countDocuments q d = int (length (filter q (registrations d)))"

text \<open>
  \<^verbatim>\<open>save\<close> of a new document. The unique index on (user, event)
  (\<^verbatim>\<open>Registration.js\<close> line 169) makes the insert fail when the pair is taken.
\<close>

definition save_new :: "registration \<Rightarrow> db \<Rightarrow> db option" where
  "save_new r d =
     (if list_ex (\<lambda>x. reg_user x = reg_user r \<and> reg_event x = reg_event r) (registrations d)
      then None
      else Some (d\<lparr>registrations := registrations d @ [r], next_oid := Suc (next_oid d)\<rparr>))"

text \<open>\<^verbatim>\<open>save\<close> of a loaded document: the stored document with that \<^verbatim>\<open>_id\<close> is replaced.\<close>

definition save :: "registration \<Rightarrow> db \<Rightarrow> db" where
  "save r d = d\<lparr>registrations := map (\<lambda>x. if reg_id x = reg_id r then r else x) (registrations d)\<rparr>"

text \<open>
  \<^verbatim>\<open>Event.findByIdAndUpdate(id, { $inc: { 'registration.currentCount': k } })\<close>:
  nothing happens when no event has that id.
\<close>

definition inc_currentCount :: "oid \<Rightarrow> int \<Rightarrow> db \<Rightarrow> db" where
  "inc_currentCount eid k d =
     (case events d eid of
        None \<Rightarrow> d
      | Some e \<Rightarrow> d\<lparr>events := (events d)(eid \<mapsto> e\<lparr>currentCount := currentCount e + k\<rparr>)\<rparr>)"

definition occupied :: "db \<Rightarrow> oid \<Rightarrow> int option" where
  "occupied d eid = map_option currentCount (events d eid)"

section \<open>Route handlers of \<^verbatim>\<open>routes/registrations.js\<close>\<close>

text \<open>
  Each handler takes the authenticated user (\<^verbatim>\<open>req.user\<close>), the request fields and
  the database, and returns the HTTP response (status code and message) with the
  database it leaves. A \<^verbatim>\<open>TypeError\<close> raised inside the handler is caught by its
  \<^verbatim>\<open>try/catch\<close> and answered with status 500. The socket.io broadcasts
  (\<^verbatim>\<open>req.io.to(...).emit\<close>) change no stored data and are left out.
\<close>

subsection \<open>\<^verbatim>\<open>POST /\<close> (register), lines 9-117\<close>

text \<open>
  The handler suspends at every \<^verbatim>\<open>await\<close>. It is split where its reads end and its
  writes begin: \<open>register_check\<close> is lines 13-64 (the three reads and the checks on
  them) and returns the loaded event and the counted registrations;
  \<open>register_commit\<close> is lines 66-109 (the insert and the increment).
\<close>

definition currentRegistrations :: "oid \<Rightarrow> db \<Rightarrow> int" where
  "currentRegistrations eventId d =
     countDocuments (\<lambda>r. reg_event r = eventId \<and> reg_status r \<in> set [Approved, Pending]) d"

definition register_check :: "int \<Rightarrow> user \<Rightarrow> oid \<Rightarrow> db \<Rightarrow> response + (event_doc \<times> int)" where
  "register_check now u eventId d =
     (case events d eventId of
        None \<Rightarrow> Inl (Resp 404 ''Event not found'')
      | Some event \<Rightarrow>
          if ev_status event \<noteq> Published
            then Inl (Resp 400 ''Event is not available for registration'')
          else if \<not> canUserRegister event u
            then Inl (Resp 403 ''You are not eligible to register for this event'')
          else (case find (\<lambda>r. reg_user r = user_id u \<and> reg_event r = eventId) (registrations d) of
                  Some existingRegistration \<Rightarrow>
                    Inl (Resp 400 ''You are already registered for this event'')
                | None \<Rightarrow>
                    if (case deadline event of None \<Rightarrow> False | Some dl \<Rightarrow> now > dl)
                      then Inl (Resp 400 ''Registration deadline has passed'')
                    else if currentRegistrations eventId d \<ge> maxCapacity event
                      then Inl (Resp 400 ''Event is full'')
                    else Inr (event, currentRegistrations eventId d)))"

definition registrationData :: "user \<Rightarrow> oid \<Rightarrow> event_doc \<Rightarrow> db \<Rightarrow> registration" where
  "registrationData u eventId event d =
     \<lparr>reg_id = next_oid d, reg_user = user_id u, reg_event = eventId,
      reg_status = (if approvalRequired event then Pending else Approved),
      approvedBy = None, rejectionReason = None, cancellationReason = None,
      attendanceMarked = False,
      payment_required = (fee_amount event > 0),
      payment_amount = (if fee_amount event > 0 then Some (fee_amount event) else None)\<rparr>"

definition register_commit :: "user \<Rightarrow> oid \<Rightarrow> event_doc \<Rightarrow> db \<Rightarrow> response \<times> db" where
  "register_commit u eventId event d =
     (case save_new (registrationData u eventId event d) d of
        None \<Rightarrow> (Resp 500 ''Registration failed'', d)
      | Some d1 \<Rightarrow> (Resp 201 ''Registration successful'', inc_currentCount eventId 1 d1))"

definition register_handler :: "int \<Rightarrow> user \<Rightarrow> oid \<Rightarrow> db \<Rightarrow> response \<times> db" where
  "register_handler now u eventId d =
     (case register_check now u eventId d of
        Inl r \<Rightarrow> (r, d)
      | Inr (event, n) \<Rightarrow> register_commit u eventId event d)"

subsection \<open>\<^verbatim>\<open>PUT /:id/approve\<close> (decide), lines 223-284\<close>

definition canApprove :: "user \<Rightarrow> event_doc \<Rightarrow> bool" where
  "canApprove u e =
     (organizer e = user_id u \<or> user_id u \<in> set (coOrganizers e)
      \<or> hasPermission u ''approve_events'' \<or> user_role u = Admin)"

definition decide_handler :: "user \<Rightarrow> bool \<Rightarrow> string option \<Rightarrow> oid \<Rightarrow> db \<Rightarrow> response \<times> db" where
  "decide_handler u approved reason rid d =
     (case findById rid d of
        None \<Rightarrow> (Resp 404 ''Registration not found'', d)
      | Some registration \<Rightarrow>
          (case events d (reg_event registration) of
             None \<Rightarrow> (Resp 500 ''Failed to process registration approval'', d)
           | Some event \<Rightarrow>
               if \<not> canApprove u event
                 then (Resp 403 ''Not authorized to approve registrations'', d)
               else if reg_status registration \<noteq> Pending
                 then (Resp 400 ''Registration is not pending approval'', d)
               else if approved
                 then (Resp 200 ''Registration approved successfully'',
                       save (approve registration u) d)
               else (Resp 200 ''Registration rejected successfully'',
                     inc_currentCount (reg_event registration) (- 1)
                       (save (reject registration reason u) d))))"

subsection \<open>\<^verbatim>\<open>PUT /:id/attendance\<close>, lines 286-344\<close>

text \<open>
  The check-in location written at lines 322-325 is not part of the model; that second
  \<^verbatim>\<open>save\<close> changes neither the status nor any count.
\<close>

definition canMarkAttendance :: "user \<Rightarrow> event_doc \<Rightarrow> bool" where
  "canMarkAttendance u e =
     (organizer e = user_id u \<or> user_id u \<in> set (coOrganizers e)
      \<or> hasPermission u ''approve_events'' \<or> user_role u = Admin)"

definition attendance_handler :: "user \<Rightarrow> bool \<Rightarrow> oid \<Rightarrow> db \<Rightarrow> response \<times> db" where
  "attendance_handler u present rid d =
     (case findById rid d of
        None \<Rightarrow> (Resp 404 ''Registration not found'', d)
      | Some registration \<Rightarrow>
          (case events d (reg_event registration) of
             None \<Rightarrow> (Resp 500 ''Failed to mark attendance'', d)
           | Some event \<Rightarrow>
               if \<not> canMarkAttendance u event
                 then (Resp 403 ''Not authorized to mark attendance'', d)
               else if reg_status registration \<noteq> Approved
                 then (Resp 400 ''Can only mark attendance for approved registrations'', d)
               else (Resp 200 (if present then ''Attendance marked as present''
                               else ''Attendance marked as absent''),
                     save (markAttendance registration present) d)))"

subsection \<open>\<^verbatim>\<open>DELETE /:id\<close> (cancel), lines 346-393\<close>

text \<open>
  \<open>canCancel\<close> is an \<^verbatim>\<open>||\<close> chain: the populated event is only dereferenced when the
  caller is not the registrant. With a dangling event reference (\<^verbatim>\<open>populate\<close> gives
  \<^verbatim>\<open>null\<close>) the registrant's cancel saves the new status at line 372 and then fails at
  line 374.
\<close>

definition cancel_handler :: "user \<Rightarrow> string option \<Rightarrow> oid \<Rightarrow> db \<Rightarrow> response \<times> db" where
  "cancel_handler u reason rid d =
     (case findById rid d of
        None \<Rightarrow> (Resp 404 ''Registration not found'', d)
      | Some registration \<Rightarrow>
          (let cancelled = registration\<lparr>reg_status := Cancelled, cancellationReason := reason\<rparr>
           in case events d (reg_event registration) of
                None \<Rightarrow>
                  if reg_user registration = user_id u
                    then (Resp 500 ''Failed to cancel registration'', save cancelled d)
                  else (Resp 500 ''Failed to cancel registration'', d)
              | Some event \<Rightarrow>
                  if \<not> (reg_user registration = user_id u \<or> organizer event = user_id u
                          \<or> user_role u = Admin)
                    then (Resp 403 ''Not authorized to cancel this registration'', d)
                  else (Resp 200 ''Registration cancelled successfully'',
                        inc_currentCount (reg_event registration) (- 1) (save cancelled d))))"

subsection \<open>\<^verbatim>\<open>POST /bulk-approve\<close>, lines 395-440\<close>

text \<open>
  The body of the handler, entered after the \<^verbatim>\<open>checkPermission('approve_events')\<close>
  middleware let the request through. \<^verbatim>\<open>registrationIds\<close> is \<open>None\<close> when the field is
  missing or no array. The loop runs over the documents the one query at lines 406-409
  returned; each result entry is the id and the \<^verbatim>\<open>success\<close> flag. A rejected
  registration whose event reference dangles is saved and then reported as failed
  (line 418 raises inside the loop's own \<^verbatim>\<open>try\<close>).
\<close>

definition bulk_find :: "oid list \<Rightarrow> db \<Rightarrow> registration list" where
  "bulk_find registrationIds d =
     filter (\<lambda>r. reg_id r \<in> set registrationIds \<and> reg_status r = Pending) (registrations d)"

fun bulk_loop :: "user \<Rightarrow> bool \<Rightarrow> string option \<Rightarrow> registration list \<Rightarrow> (oid \<times> bool) list \<Rightarrow> db
    \<Rightarrow> (oid \<times> bool) list \<times> db" where
  "bulk_loop u approved reason [] results d = (results, d)"
| "bulk_loop u approved reason (registration # rest) results d =
     (if approved
        then bulk_loop u approved reason rest (results @ [(reg_id registration, True)])
               (save (approve registration u) d)
      else (case events d (reg_event registration) of
              None \<Rightarrow>
                bulk_loop u approved reason rest (results @ [(reg_id registration, False)])
                  (save (reject registration reason u) d)
            | Some event \<Rightarrow>
                bulk_loop u approved reason rest (results @ [(reg_id registration, True)])
                  (inc_currentCount (reg_event registration) (- 1)
                     (save (reject registration reason u) d))))"

definition bulk_approve_handler ::
    "user \<Rightarrow> oid list option \<Rightarrow> bool \<Rightarrow> string option \<Rightarrow> db \<Rightarrow> (response \<times> (oid \<times> bool) list) \<times> db" where
  "bulk_approve_handler u registrationIds approved reason d =
     (case registrationIds of
        None \<Rightarrow> ((Resp 400 ''Registration IDs array is required'', []), d)
      | Some ids \<Rightarrow>
          (let (results, d1) = bulk_loop u approved reason (bulk_find ids d) [] d
           in ((Resp 200 (if approved then ''Bulk approval completed''
                          else ''Bulk rejection completed''), results), d1)))"

section \<open>Sequences of operations\<close>

datatype op =
    Register user oid
  | Decide user bool oid
  | Attendance user bool oid
  | Cancel user oid

fun apply_op :: "int \<Rightarrow> db \<Rightarrow> op \<Rightarrow> db" where
  "apply_op now d (Register u eventId) = snd (register_handler now u eventId d)"
| "apply_op now d (Decide u approved rid) = snd (decide_handler u approved None rid d)"
| "apply_op now d (Attendance u present rid) = snd (attendance_handler u present rid d)"
| "apply_op now d (Cancel u rid) = snd (cancel_handler u None rid d)"

definition run_ops :: "int \<Rightarrow> op list \<Rightarrow> db \<Rightarrow> db" where
  "run_ops now ops d = foldl (apply_op now) d ops"

section \<open>Interleaved register requests\<close>

text \<open>
  Two or more \<^verbatim>\<open>POST /\<close> requests in flight at once. Node runs one handler until its
  next \<^verbatim>\<open>await\<close>, so a schedule is a list of steps, each running one phase of one
  request on the database the earlier steps left: \<open>Check i\<close> runs lines 13-64 of request
  \<open>i\<close>, \<open>Commit i\<close> runs lines 66-109 with the event document the check loaded. A
  request is checked once and committed once, after its check passed.
\<close>

datatype sched_step = Check nat | Commit nat

record race_state =
  rs_db :: db
  rs_pending :: "nat \<Rightarrow> event_doc option"
  rs_responses :: "nat \<Rightarrow> response option"

fun race_step :: "int \<Rightarrow> (user \<times> oid) list \<Rightarrow> race_state \<Rightarrow> sched_step \<Rightarrow> race_state" where
  "race_step now reqs s (Check i) =
     (if i < length reqs \<and> rs_pending s i = None \<and> rs_responses s i = None
      then (case register_check now (fst (reqs ! i)) (snd (reqs ! i)) (rs_db s) of
              Inl r \<Rightarrow> s\<lparr>rs_responses := (rs_responses s)(i \<mapsto> r)\<rparr>
            | Inr (event, n) \<Rightarrow> s\<lparr>rs_pending := (rs_pending s)(i \<mapsto> event)\<rparr>)
      else s)"
| "race_step now reqs s (Commit i) =
     (if i < length reqs \<and> rs_responses s i = None
      then (case rs_pending s i of
              None \<Rightarrow> s
            | Some event \<Rightarrow>
                (let (r, d1) = register_commit (fst (reqs ! i)) (snd (reqs ! i)) event (rs_db s)
                 in s\<lparr>rs_db := d1, rs_pending := (rs_pending s)(i := None),
                      rs_responses := (rs_responses s)(i \<mapsto> r)\<rparr>))
      else s)"

definition run_schedule :: "int \<Rightarrow> (user \<times> oid) list \<Rightarrow> sched_step list \<Rightarrow> db \<Rightarrow> race_state" where
  "run_schedule now reqs sched d =
     foldl (race_step now reqs) \<lparr>rs_db = d, rs_pending = (\<lambda>i. None), rs_responses = (\<lambda>i. None)\<rparr> sched"

section \<open>Capacity-holding statuses in the words of the specification\<close>

text \<open>
  The specification's \<open>capacityHeld\<close>: true iff the status is one of pending, approved,
  attended; and the occupancy figure it describes, the number of registrations of the
  event in such a status. Both follow the specification's words and are compared below
  with \<open>currentRegistrations\<close>, which follows the code.
\<close>

definition capacityHeld_spec :: "reg_status \<Rightarrow> bool" where
  "capacityHeld_spec s = (s = Pending \<or> s = Approved \<or> s = Attended)"

definition occupancy_spec :: "oid \<Rightarrow> db \<Rightarrow> int" where
  "occupancy_spec eventId d =
     int (length (filter (\<lambda>r. reg_event r = eventId \<and> capacityHeld_spec (reg_status r))
                         (registrations d)))"

section \<open>Real-time channel\<close>

subsection \<open>The client's socket service\<close>

text \<open>
  \<^verbatim>\<open>WebSocketService.send\<close>, \<^verbatim>\<open>joinEvent\<close> and \<^verbatim>\<open>leaveEvent\<close> of the frontend: a message
  goes out only while the socket exists and is open, and nothing is handed to the
  service's listeners.
\<close>

record ws_client =
  socket_open :: bool
  sent :: "(string \<times> oid) list"

definition send :: "string \<Rightarrow> oid \<Rightarrow> ws_client \<Rightarrow> ws_client" where
  "send event eventId c = (if socket_open c then c\<lparr>sent := sent c @ [(event, eventId)]\<rparr> else c)"

definition joinEvent :: "oid \<Rightarrow> ws_client \<Rightarrow> ws_client" where
  "joinEvent eventId c = send ''join-event'' eventId c"

definition leaveEvent :: "oid \<Rightarrow> ws_client \<Rightarrow> ws_client" where
  "leaveEvent eventId c = send ''leave-event'' eventId c"

subsection \<open>The broadcast router\<close>

text \<open>
  Modelled from the spec: the Event Broadcast Router's \<open>Subscribe\<close> (the server-side
  handler of \<^verbatim>\<open>join-event\<close> is not among the sources). Section 4.4: "On Subscribe, the
  router immediately sends a synthetic snapshot event carrying the current
  occupiedCount"; section 6: the snapshot "uses kind = Snapshot with the same shape" as
  a domain event, \<open>{eventId, kind, occupiedCountAfter, sequenceNumber, timestamp}\<close>. The
  router holds, per event, the occupied count it reads and the last sequence number it
  published, the list of subscriptions, and per observer the events delivered so far.
\<close>

datatype kind =
    RegistrationCreated | RegistrationApproved | RegistrationRejected
  | RegistrationCancelled | AttendanceMarked | Snapshot

record domain_event =
  de_eventId :: oid
  de_kind :: kind
  occupiedCountAfter :: int
  sequenceNumber :: nat
  de_timestamp :: int

record router =
  occupiedCount :: "oid \<Rightarrow> int"
  lastSequence :: "oid \<Rightarrow> nat"
  subscriptions :: "(oid \<times> nat) list"
  delivered :: "nat \<Rightarrow> domain_event list"

definition snapshot :: "router \<Rightarrow> oid \<Rightarrow> int \<Rightarrow> domain_event" where
  "snapshot rt eventId now =
     \<lparr>de_eventId = eventId, de_kind = Snapshot, occupiedCountAfter = occupiedCount rt eventId,
      sequenceNumber = lastSequence rt eventId, de_timestamp = now\<rparr>"

definition Subscribe :: "int \<Rightarrow> oid \<Rightarrow> nat \<Rightarrow> router \<Rightarrow> router" where
  "Subscribe now eventId observer rt =
     rt\<lparr>subscriptions := subscriptions rt @ [(eventId, observer)],
        delivered := (delivered rt)(observer := delivered rt observer @ [snapshot rt eventId now])\<rparr>"

section \<open>Invariants of the stored data\<close>

text \<open>
  \<open>ids_ok\<close>: the \<^verbatim>\<open>_id\<close>s of the stored registrations are distinct and below the next
  fresh id. \<open>holds\<close>: the registration is one the admission query counts for the event.
  \<open>within_capacity\<close>: the event exists, its stored count is at most the number of
  counted registrations, and that number is at most \<open>maxCapacity\<close>.
\<close>

definition is_attendance :: "op \<Rightarrow> bool" where
  "is_attendance x = (case x of Attendance u p rid \<Rightarrow> True | _ \<Rightarrow> False)"

definition ids_ok :: "db \<Rightarrow> bool" where
  "ids_ok d = (distinct (map reg_id (registrations d))
               \<and> list_all (\<lambda>r. reg_id r < next_oid d) (registrations d))"

definition within_capacity :: "oid \<Rightarrow> db \<Rightarrow> bool" where
  "within_capacity eid d =
     (case events d eid of
        None \<Rightarrow> False
      | Some e \<Rightarrow> currentCount e \<le> currentRegistrations eid d
                  \<and> currentRegistrations eid d \<le> maxCapacity e)"

definition holds :: "oid \<Rightarrow> registration \<Rightarrow> bool" where
  "holds eid r = (reg_event r = eid \<and> reg_status r \<in> set [Approved, Pending])"

section \<open>Observations and example data\<close>

definition status_after :: "db \<Rightarrow> oid \<Rightarrow> reg_status option" where
  "status_after d rid = map_option reg_status (findById rid d)"

text \<open>
  Two students, the organizer of the events, an event with a single place that admits
  without approval, one with two places that requires approval, and a database holding
  each.
\<close>

definition alice :: user where
  "alice = \<lparr>user_id = 10, user_role = Student, user_department = None, user_year = None,
            permissions = []\<rparr>"

definition bob :: user where
  "bob = \<lparr>user_id = 11, user_role = Student, user_department = None, user_year = None,
          permissions = []\<rparr>"

definition host :: user where
  "host = \<lparr>user_id = 5, user_role = Organizer, user_department = None, user_year = None,
           permissions = []\<rparr>"

definition gala :: event_doc where
  "gala = \<lparr>ev_status = Published, organizer = 5, coOrganizers = [], maxCapacity = 1,
           currentCount = 0, approvalRequired = False, deadline = Some 1000, fee_amount = 0,
           allowedRoles = [], allowedDepartments = [], allowedYears = []\<rparr>"

definition seminar :: event_doc where
  "seminar = \<lparr>ev_status = Published, organizer = 5, coOrganizers = [], maxCapacity = 2,
              currentCount = 0, approvalRequired = True, deadline = None, fee_amount = 0,
              allowedRoles = [], allowedDepartments = [], allowedYears = []\<rparr>"

definition db_gala :: db where
  "db_gala = \<lparr>events = [1 \<mapsto> gala], registrations = [], next_oid = 100\<rparr>"

definition db_seminar :: db where
  "db_seminar = \<lparr>events = [2 \<mapsto> seminar], registrations = [], next_oid = 200\<rparr>"

text \<open>A stored registration with the schema's defaults, and a database with one event.\<close>

definition stored :: "oid \<Rightarrow> oid \<Rightarrow> oid \<Rightarrow> reg_status \<Rightarrow> registration" where
  "stored rid uid eid st =
     \<lparr>reg_id = rid, reg_user = uid, reg_event = eid, reg_status = st, approvedBy = None,
      rejectionReason = None, cancellationReason = None, attendanceMarked = False,
      payment_required = False, payment_amount = None\<rparr>"

definition db_with :: "oid \<Rightarrow> event_doc \<Rightarrow> registration list \<Rightarrow> db" where
  "db_with eid e rs = \<lparr>events = [eid \<mapsto> e], registrations = rs, next_oid = 300\<rparr>"

definition rt_seven :: router where
  "rt_seven = \<lparr>occupiedCount = (\<lambda>i. 0)(1 := 7), lastSequence = (\<lambda>i. 0)(1 := 12),
               subscriptions = [], delivered = (\<lambda>i. [])\<rparr>"

section \<open>Derived availability\<close>

text \<open>
  C9. The derived availability fields are functions of the stored counts alone:
  \<open>availableSlots\<close> is the larger of 0 and \<open>maxCapacity - currentCount\<close>, so it is never
  negative, also when \<open>currentCount\<close> exceeds \<open>maxCapacity\<close>, and \<open>isFull\<close> holds exactly
  when \<open>currentCount\<close> is at least \<open>maxCapacity\<close>.
\<close>

theorem availability_virtuals:
  "availableSlots e = max 0 (maxCapacity e - currentCount e)
   \<and> 0 \<le> availableSlots e
   \<and> (isFull e \<longleftrightarrow> maxCapacity e \<le> currentCount e)"
  by (simp add: availableSlots_def isFull_def)


section \<open>Facts about the database operations\<close>

lemma events_save [simp]: "events (save r d) = events d"
  by (simp add: save_def)

lemma registrations_inc [simp]: "registrations (inc_currentCount eid k d) = registrations d"
  by (simp add: inc_currentCount_def split: option.split)

lemma occupied_inc:
  "events d eid = Some e \<Longrightarrow> occupied (inc_currentCount eid k d) eid = Some (currentCount e + k)"
  by (simp add: occupied_def inc_currentCount_def)

lemma occupied_save [simp]: "occupied (save r d) eid = occupied d eid"
  by (simp add: occupied_def)

lemma findById_inc [simp]: "findById rid (inc_currentCount eid k d) = findById rid d"
  by (simp add: findById_def)

lemma findById_reg_id: "findById rid d = Some r \<Longrightarrow> reg_id r = rid"
  by (auto simp: findById_def find_Some_iff)

lemma find_replace:
  "find (\<lambda>x. reg_id x = rid) xs = Some r \<Longrightarrow> reg_id r' = rid \<Longrightarrow>
   find (\<lambda>x. reg_id x = rid) (map (\<lambda>x. if reg_id x = rid then r' else x) xs) = Some r'"
  by (induction xs) (auto split: if_splits)

lemma findById_save:
  "findById rid d = Some r \<Longrightarrow> reg_id r' = rid \<Longrightarrow> findById rid (save r' d) = Some r'"
  using find_replace[of rid "registrations d" r r'] by (simp add: findById_def save_def)

lemma find_replace_other:
  "rid \<noteq> rid' \<Longrightarrow> reg_id r' = rid' \<Longrightarrow>
   find (\<lambda>x. reg_id x = rid) (map (\<lambda>x. if reg_id x = rid' then r' else x) xs)
     = find (\<lambda>x. reg_id x = rid) xs"
  by (induction xs) auto

lemma findById_save_other:
  "reg_id r' \<noteq> rid \<Longrightarrow> findById rid (save r' d) = findById rid d"
  using find_replace_other[of rid "reg_id r'" r' "registrations d"]
  by (auto simp add: findById_def save_def)

lemma reg_id_approve [simp]: "reg_id (approve r u) = reg_id r"
  by (simp add: approve_def)

lemma reg_id_reject [simp]: "reg_id (reject r reason u) = reg_id r"
  by (simp add: reject_def)

lemma find_None_list_ex: "find P xs = None \<longleftrightarrow> \<not> list_ex P xs"
  by (induction xs) auto

lemma registrationData_fields [simp]:
  "reg_user (registrationData u eid e d) = user_id u"
  "reg_event (registrationData u eid e d) = eid"
  "reg_id (registrationData u eid e d) = next_oid d"
  "reg_status (registrationData u eid e d) = (if approvalRequired e then Pending else Approved)"
  by (simp_all add: registrationData_def)

lemma canUserRegister_currentCount [simp]:
  "canUserRegister (e\<lparr>currentCount := c\<rparr>) u = canUserRegister e u"
  by (simp add: canUserRegister_def)

lemma joinEvent_sent:
  "sent (joinEvent eventId c)
     = (if socket_open c then sent c @ [(''join-event'', eventId)] else sent c)"
  by (simp add: joinEvent_def send_def)

section \<open>The register handler, check by check\<close>

lemma register_handler_full:
  assumes "events d eid = Some e" "ev_status e = Published" "canUserRegister e u"
    and "\<not> list_ex (\<lambda>r. reg_user r = user_id u \<and> reg_event r = eid) (registrations d)"
    and "\<not> (case deadline e of None \<Rightarrow> False | Some dl \<Rightarrow> dl < now)"
    and "maxCapacity e \<le> currentRegistrations eid d"
  shows "register_handler now u eid d = (Resp 400 ''Event is full'', d)"
  using assms by (simp add: register_handler_def register_check_def find_None_list_ex[symmetric])

lemma register_handler_ok:
  assumes "events d eid = Some e" "ev_status e = Published" "canUserRegister e u"
    and "\<not> list_ex (\<lambda>r. reg_user r = user_id u \<and> reg_event r = eid) (registrations d)"
    and "\<not> (case deadline e of None \<Rightarrow> False | Some dl \<Rightarrow> dl < now)"
    and "currentRegistrations eid d < maxCapacity e"
  shows "register_handler now u eid d =
     (Resp 201 ''Registration successful'',
      inc_currentCount eid 1
        (d\<lparr>registrations := registrations d @ [registrationData u eid e d],
           next_oid := Suc (next_oid d)\<rparr>))"
proof -
  have n: "find (\<lambda>r. reg_user r = user_id u \<and> reg_event r = eid) (registrations d) = None"
    using assms(4) by (simp add: find_None_list_ex)
  have s: "save_new (registrationData u eid e d) d =
      Some (d\<lparr>registrations := registrations d @ [registrationData u eid e d],
              next_oid := Suc (next_oid d)\<rparr>)"
    using assms(4) by (simp add: save_new_def)
  show ?thesis using assms(1,2,3,5,6) n s
    by (simp add: register_handler_def register_check_def register_commit_def)
qed

lemma decide_pending:
  assumes "findById rid d = Some r" and "events d (reg_event r) = Some e"
    and "canApprove u e" and "reg_status r = Pending"
  shows "decide_handler u True reason rid d =
           (Resp 200 ''Registration approved successfully'', save (approve r u) d)"
    and "decide_handler u False reason rid d =
           (Resp 200 ''Registration rejected successfully'',
            inc_currentCount (reg_event r) (- 1) (save (reject r reason u) d))"
  using assms by (simp_all add: decide_handler_def)

section \<open>The bulk loop\<close>

lemma bulk_loop_ids:
  "map fst (fst (bulk_loop u a reason rs acc d)) = map fst acc @ map reg_id rs"
  by (induction rs arbitrary: acc d) (auto split: option.splits)

lemma bulk_loop_other:
  "rid \<notin> reg_id ` set rs \<Longrightarrow> findById rid (snd (bulk_loop u a reason rs acc d)) = findById rid d"
proof (induction rs arbitrary: acc d)
  case Nil
  then show ?case by simp
next
  case (Cons x xs)
  then have x: "reg_id x \<noteq> rid" and xs: "rid \<notin> reg_id ` set xs" by auto
  show ?case using Cons.IH[OF xs] x
    by (cases a) (simp_all add: findById_save_other split: option.split)
qed

lemma bulk_find_skips:
  assumes f: "findById rid d = Some r" and np: "reg_status r \<noteq> Pending"
    and dist: "distinct (map reg_id (registrations d))"
  shows "rid \<notin> reg_id ` set (bulk_find ids d)"
proof
  assume "rid \<in> reg_id ` set (bulk_find ids d)"
  then obtain x where x: "x \<in> set (registrations d)" "reg_id x = rid" "reg_status x = Pending"
    by (auto simp: bulk_find_def)
  from f have r: "r \<in> set (registrations d)" "reg_id r = rid"
    by (auto simp: findById_def find_Some_iff in_set_conv_nth)
  from dist have "inj_on reg_id (set (registrations d))" by (simp add: distinct_map)
  with x r have "x = r" by (auto dest: inj_onD)
  with x np show False by simp
qed


section \<open>Capacity bounds over sequences of operations\<close>

text \<open>
  C1. The capacity invariant: over every sequence of Register, Decide and Cancel
  operations on an event, \<open>registration.currentCount\<close> never exceeds
  \<open>registration.maxCapacity\<close> and never drops below 0. The cancel route has no check of
  the registration's status (the approve and attendance routes have one), so a second
  cancel of the same registration decrements again: on the single-place event, alice
  registers (count 1), cancels (count 0) and cancels once more, and the count is -1.
\<close>

theorem capacity_floor_breach:
  "occupied db_gala 1 = Some 0
   \<and> occupied (run_ops 0 [Register alice 1] db_gala) 1 = Some 1
   \<and> occupied (run_ops 0 [Register alice 1, Cancel alice 100] db_gala) 1 = Some 0
   \<and> occupied (run_ops 0 [Register alice 1, Cancel alice 100, Cancel alice 100] db_gala) 1
       = Some (- 1)"
  by code_simp

subsection \<open>The ceiling\<close>

text \<open>
  The other half of the invariant holds for operations run one after the other: from a
  database with well-formed ids in which the event is within capacity, no sequence of
  Register, Decide and Cancel operations brings the stored count above \<open>maxCapacity\<close>.
  Marking attendance is excluded: an attended registration is no longer counted by
  admission while the stored count keeps it, and the next Register goes through.
\<close>

lemma currentRegistrations_holds:
  "currentRegistrations eid d = int (length (filter (holds eid) (registrations d)))"
  by (simp add: currentRegistrations_def countDocuments_def holds_def[abs_def])

lemma replace_absent:
  "rid \<notin> reg_id ` set xs \<Longrightarrow> map (\<lambda>x. if reg_id x = rid then r' else x) xs = xs"
  by (induction xs) auto

lemma count_replace:
  assumes "distinct (map reg_id xs)" and "find (\<lambda>x. reg_id x = rid) xs = Some r"
  shows "int (length (filter P (map (\<lambda>x. if reg_id x = rid then r' else x) xs)))
       = int (length (filter P xs)) - (if P r then 1 else 0) + (if P r' then 1 else 0)"
  using assms
proof (induction xs)
  case Nil
  then show ?case by simp
next
  case (Cons x xs)
  show ?case
  proof (cases "reg_id x = rid")
    case True
    with Cons.prems have xr: "x = r" and "rid \<notin> reg_id ` set xs" by auto
    then have "map (\<lambda>x. if reg_id x = rid then r' else x) xs = xs" by (simp add: replace_absent)
    with True xr show ?thesis by simp
  next
    case False
    with Cons.prems have "distinct (map reg_id xs)" "find (\<lambda>x. reg_id x = rid) xs = Some r"
      by auto
    from Cons.IH[OF this] False show ?thesis by (auto split: if_splits)
  qed
qed

lemma ids_replace:
  "reg_id r' = rid \<Longrightarrow> map (reg_id \<circ> (\<lambda>x. if reg_id x = rid then r' else x)) xs = map reg_id xs"
  by (induction xs) auto

lemma ids_ok_save:
  "ids_ok d \<Longrightarrow> ids_ok (save r' d)"
  by (auto simp add: ids_ok_def save_def list_all_iff ids_replace)

lemma next_oid_inc [simp]: "next_oid (inc_currentCount eid k d) = next_oid d"
  by (simp add: inc_currentCount_def split: option.split)

lemma ids_ok_inc [simp]: "ids_ok (inc_currentCount eid k d) = ids_ok d"
  by (simp add: ids_ok_def)

lemma currentRegistrations_inc [simp]:
  "currentRegistrations eid (inc_currentCount eid' k d) = currentRegistrations eid d"
  by (simp add: currentRegistrations_def countDocuments_def)

lemma currentRegistrations_save:
  assumes "ids_ok d" "findById rid d = Some r" "reg_id r' = rid"
  shows "currentRegistrations eid (save r' d)
       = currentRegistrations eid d - (if holds eid r then 1 else 0) + (if holds eid r' then 1 else 0)"
  using count_replace[of "registrations d" rid r "holds eid" r'] assms
  by (simp add: currentRegistrations_holds save_def ids_ok_def findById_def)

lemma events_inc:
  "events (inc_currentCount eid' k d) eid
     = (if eid = eid' then map_option (\<lambda>e. e\<lparr>currentCount := currentCount e + k\<rparr>) (events d eid)
        else events d eid)"
  by (simp add: inc_currentCount_def split: option.split)

lemma ids_ok_decide: "ids_ok d \<Longrightarrow> ids_ok (snd (decide_handler u a reason rid d))"
  by (simp add: decide_handler_def ids_ok_save split: option.split)

lemma ids_ok_cancel: "ids_ok d \<Longrightarrow> ids_ok (snd (cancel_handler u reason rid d))"
  by (simp add: cancel_handler_def Let_def ids_ok_save split: option.split)

lemma ids_ok_register: "ids_ok d \<Longrightarrow> ids_ok (snd (register_handler now u eid d))"
  by (fastforce simp add: register_handler_def register_commit_def save_new_def ids_ok_def list_all_iff
      split: sum.split option.split prod.split)

lemma within_decide:
  assumes i: "ids_ok d" and w: "within_capacity eid d"
  shows "within_capacity eid (snd (decide_handler u a reason rid d))"
proof (cases "findById rid d")
  case None
  with w show ?thesis by (simp add: decide_handler_def)
next
  case (Some r)
  have id: "reg_id r = rid" using Some by (rule findById_reg_id)
  show ?thesis
  proof (cases "events d (reg_event r)")
    case None
    with Some w show ?thesis by (simp add: decide_handler_def)
  next
    case (Some e)
    note ev = this
    show ?thesis
    proof (cases "canApprove u e \<and> reg_status r = Pending")
      case False
      with \<open>findById rid d = Some r\<close> ev w show ?thesis by (auto simp add: decide_handler_def)
    next
      case True
      have ca: "currentRegistrations eid (save (approve r u) d) = currentRegistrations eid d"
        using currentRegistrations_save[OF i \<open>findById rid d = Some r\<close>, of "approve r u" eid] id True
        by (simp add: holds_def approve_def)
      have cr: "currentRegistrations eid (save (reject r reason u) d)
          = currentRegistrations eid d - (if reg_event r = eid then 1 else 0)"
        using currentRegistrations_save[OF i \<open>findById rid d = Some r\<close>, of "reject r reason u" eid] id True
        by (simp add: holds_def reject_def)
      show ?thesis using True \<open>findById rid d = Some r\<close> ev w ca cr
        by (cases a) (auto simp add: decide_handler_def within_capacity_def events_inc split: option.splits)
    qed
  qed
qed

lemma within_cancel:
  assumes i: "ids_ok d" and w: "within_capacity eid d"
  shows "within_capacity eid (snd (cancel_handler u reason rid d))"
proof (cases "findById rid d")
  case None
  with w show ?thesis by (simp add: cancel_handler_def)
next
  case (Some r)
  let ?c = "r\<lparr>reg_status := Cancelled, cancellationReason := reason\<rparr>"
  have id: "reg_id r = rid" using Some by (rule findById_reg_id)
  have cc: "currentRegistrations eid (save ?c d)
      = currentRegistrations eid d - (if holds eid r then 1 else 0)"
    using currentRegistrations_save[OF i Some, of ?c eid] id by (simp add: holds_def)
  show ?thesis
  proof (cases "events d (reg_event r)")
    case None
    with w have "reg_event r \<noteq> eid" by (auto simp: within_capacity_def)
    then have "\<not> holds eid r" by (simp add: holds_def)
    with None Some w cc show ?thesis
      by (auto simp add: cancel_handler_def Let_def within_capacity_def split: option.splits)
  next
    case (Some e)
    with \<open>findById rid d = Some r\<close> w cc show ?thesis
      by (auto simp add: cancel_handler_def Let_def within_capacity_def events_inc holds_def
          split: option.splits)
  qed
qed

lemma within_register:
  assumes w: "within_capacity eid d"
  shows "within_capacity eid (snd (register_handler now u eid' d))"
proof (cases "register_check now u eid' d")
  case (Inl r)
  with w show ?thesis by (simp add: register_handler_def)
next
  case (Inr p)
  obtain ev n where p: "p = (ev, n)" by (cases p)
  have ev: "events d eid' = Some ev" and lt: "currentRegistrations eid' d < maxCapacity ev"
    using Inr p by (auto simp add: register_check_def split: option.splits if_splits)
  show ?thesis
  proof (cases "save_new (registrationData u eid' ev d) d")
    case None
    with Inr p w show ?thesis by (simp add: register_handler_def register_commit_def)
  next
    case (Some d1)
    then have d1: "events d1 = events d" "registrations d1 = registrations d @ [registrationData u eid' ev d]"
      by (auto simp add: save_new_def split: if_splits)
    have c: "currentRegistrations eid d1 = currentRegistrations eid d + (if eid = eid' then 1 else 0)"
      by (simp add: currentRegistrations_def countDocuments_def d1)
    show ?thesis using Inr p Some w ev lt c d1
      by (auto simp add: register_handler_def register_commit_def within_capacity_def events_inc
          split: option.splits)
  qed
qed

lemma apply_op_preserves:
  assumes "ids_ok d \<and> within_capacity eid d" and "\<not> is_attendance x"
  shows "ids_ok (apply_op now d x) \<and> within_capacity eid (apply_op now d x)"
  using assms
  by (cases x) (simp_all add: is_attendance_def ids_ok_register ids_ok_decide ids_ok_cancel
      within_register within_decide within_cancel)

lemma run_ops_preserves:
  "ids_ok d \<and> within_capacity eid d \<Longrightarrow> \<not> list_ex is_attendance ops \<Longrightarrow>
   ids_ok (run_ops now ops d) \<and> within_capacity eid (run_ops now ops d)"
  unfolding run_ops_def
proof (induction ops arbitrary: d)
  case Nil
  then show ?case by simp
next
  case (Cons x xs)
  then show ?case using apply_op_preserves[of d eid x now] by simp
qed

lemma capacity_ceiling_sequential:
  assumes "ids_ok d" "within_capacity eid d" "\<not> list_ex is_attendance ops"
  shows "\<exists>e. events (run_ops now ops d) eid = Some e \<and> currentCount e \<le> maxCapacity e"
  using run_ops_preserves[of d eid ops now] assms
  by (auto simp add: within_capacity_def split: option.splits)

lemma capacity_ceiling_needs_no_attendance:
  "occupied (run_ops 0 [Register alice 1, Attendance host True 100, Register bob 1] db_gala) 1
     = Some 2"
  by code_simp

section \<open>Admission for the last place\<close>

text \<open>
  C2, as the claim states it: two Register calls for distinct users racing for the one
  remaining place never both succeed. The handler reads the count at line 54 and writes
  at lines 82-86, with \<^verbatim>\<open>await\<close>s between; when both requests run their checks
  before either writes, both are answered 201 and the single-place event holds two
  approved registrations and a count of 2.
\<close>

theorem admission_race_counterexample:
  "maxCapacity gala = 1
   \<and> rs_responses (run_schedule 0 [(alice, 1), (bob, 1)] [Check 0, Check 1, Commit 0, Commit 1]
        db_gala) 0 = Some (Resp 201 ''Registration successful'')
   \<and> rs_responses (run_schedule 0 [(alice, 1), (bob, 1)] [Check 0, Check 1, Commit 0, Commit 1]
        db_gala) 1 = Some (Resp 201 ''Registration successful'')
   \<and> currentRegistrations 1 (rs_db (run_schedule 0 [(alice, 1), (bob, 1)]
        [Check 0, Check 1, Commit 0, Commit 1] db_gala)) = 2
   \<and> occupied (rs_db (run_schedule 0 [(alice, 1), (bob, 1)]
        [Check 0, Check 1, Commit 0, Commit 1] db_gala)) 1 = Some 2"
  by code_simp

text \<open>
  C2, amended. Admission is a check followed by a separate insert and increment. When
  two Register calls for distinct users on an event with one remaining place (the
  counted registrations are \<open>maxCapacity - 1\<close>) run one after the other, each before the
  deadline, eligible and not yet registered, the first succeeds and the second fails
  with "Event is full" and changes nothing.
\<close>

theorem sequential_admission_last_slot:
  assumes e: "events d eid = Some e" and p: "ev_status e = Published"
    and ea: "canUserRegister e a" and eb: "canUserRegister e b"
    and ab: "user_id a \<noteq> user_id b"
    and na: "\<not> list_ex (\<lambda>r. reg_user r = user_id a \<and> reg_event r = eid) (registrations d)"
    and nb: "\<not> list_ex (\<lambda>r. reg_user r = user_id b \<and> reg_event r = eid) (registrations d)"
    and dl: "\<not> (case deadline e of None \<Rightarrow> False | Some dl \<Rightarrow> dl < now)"
    and dl': "\<not> (case deadline e of None \<Rightarrow> False | Some dl \<Rightarrow> dl < now')"
    and one: "currentRegistrations eid d = maxCapacity e - 1"
  shows "fst (register_handler now a eid d) = Resp 201 ''Registration successful''
       \<and> register_handler now' b eid (snd (register_handler now a eid d))
           = (Resp 400 ''Event is full'', snd (register_handler now a eid d))"
proof -
  let ?d1 = "inc_currentCount eid 1
      (d\<lparr>registrations := registrations d @ [registrationData a eid e d],
         next_oid := Suc (next_oid d)\<rparr>)"
  have r1: "register_handler now a eid d = (Resp 201 ''Registration successful'', ?d1)"
    using register_handler_ok[OF e p ea na dl] one by simp
  have e1: "events ?d1 eid = Some (e\<lparr>currentCount := currentCount e + 1\<rparr>)"
    using e by (simp add: inc_currentCount_def)
  have n1: "\<not> list_ex (\<lambda>r. reg_user r = user_id b \<and> reg_event r = eid) (registrations ?d1)"
    using nb ab by simp
  have c1: "currentRegistrations eid ?d1 = maxCapacity e"
    using one by (simp add: currentRegistrations_def countDocuments_def)
  have r2: "register_handler now' b eid ?d1 = (Resp 400 ''Event is full'', ?d1)"
    using register_handler_full[OF e1, of b now'] p eb n1 dl' c1 by simp
  show ?thesis using r1 r2 by simp
qed

theorem sequential_admission_last_slot_witness:
  "currentRegistrations 1 db_gala = maxCapacity gala - 1
   \<and> user_id alice \<noteq> user_id bob
   \<and> fst (register_handler 0 alice 1 db_gala) = Resp 201 ''Registration successful''
   \<and> register_handler 5 bob 1 (snd (register_handler 0 alice 1 db_gala))
       = (Resp 400 ''Event is full'', snd (register_handler 0 alice 1 db_gala))"
proof -
  have e: "events db_gala 1 = Some gala" by (simp add: db_gala_def)
  have p: "ev_status gala = Published" by (simp add: gala_def)
  have ea: "canUserRegister gala alice" by (simp add: canUserRegister_def gala_def)
  have eb: "canUserRegister gala bob" by (simp add: canUserRegister_def gala_def)
  have ab: "user_id alice \<noteq> user_id bob" by (simp add: alice_def bob_def)
  have na: "\<not> list_ex (\<lambda>r. reg_user r = user_id alice \<and> reg_event r = 1) (registrations db_gala)"
    by (simp add: db_gala_def)
  have nb: "\<not> list_ex (\<lambda>r. reg_user r = user_id bob \<and> reg_event r = 1) (registrations db_gala)"
    by (simp add: db_gala_def)
  have dl: "\<not> (case deadline gala of None \<Rightarrow> False | Some dl \<Rightarrow> dl < 0)"
    by (simp add: gala_def)
  have dl': "\<not> (case deadline gala of None \<Rightarrow> False | Some dl \<Rightarrow> dl < 5)"
    by (simp add: gala_def)
  have one: "currentRegistrations 1 db_gala = maxCapacity gala - 1"
    by (simp add: currentRegistrations_def countDocuments_def db_gala_def gala_def)
  show ?thesis
    using sequential_admission_last_slot[OF e p ea eb ab na nb dl dl' one] ab one by simp
qed

section \<open>Capacity delta of each transition\<close>

text \<open>
  C3, as the claim states it: the transition approved to absent decrements the occupied
  count once. The attendance route never touches the event: alice's approved
  registration is marked absent by the organizer and the count stays 1.
\<close>

theorem absent_keeps_count_counterexample:
  "status_after (run_ops 0 [Register alice 1] db_gala) 100 = Some Approved
   \<and> occupied (run_ops 0 [Register alice 1] db_gala) 1 = Some 1
   \<and> fst (attendance_handler host False 100 (run_ops 0 [Register alice 1] db_gala))
       = Resp 200 ''Attendance marked as absent''
   \<and> status_after (run_ops 0 [Register alice 1, Attendance host False 100] db_gala) 100
       = Some Absent
   \<and> occupied (run_ops 0 [Register alice 1, Attendance host False 100] db_gala) 1 = Some 1"
  by code_simp

text \<open>
  C3, amended. For a stored registration whose event exists and an authorised caller,
  the count of its event is decremented exactly once by the transitions pending to
  rejected (Decide with reject) and pending or approved to cancelled (Cancel), and is
  left as it is by pending to approved (Decide with approve), approved to attended and
  approved to absent (the attendance route in both cases).
\<close>

theorem capacity_delta_per_transition:
  assumes f: "findById rid d = Some r" and e: "events d (reg_event r) = Some e"
    and a: "canApprove ua e" and m: "canMarkAttendance um e"
    and c: "reg_user r = user_id uc \<or> organizer e = user_id uc \<or> user_role uc = Admin"
  shows
   "(reg_status r = Pending \<longrightarrow>
       status_after (snd (decide_handler ua True reason rid d)) rid = Some Approved
     \<and> occupied (snd (decide_handler ua True reason rid d)) (reg_event r) = Some (currentCount e)
     \<and> status_after (snd (decide_handler ua False reason rid d)) rid = Some Rejected
     \<and> occupied (snd (decide_handler ua False reason rid d)) (reg_event r)
         = Some (currentCount e - 1)
     \<and> status_after (snd (cancel_handler uc reason rid d)) rid = Some Cancelled
     \<and> occupied (snd (cancel_handler uc reason rid d)) (reg_event r)
         = Some (currentCount e - 1))
  \<and> (reg_status r = Approved \<longrightarrow>
       status_after (snd (cancel_handler uc reason rid d)) rid = Some Cancelled
     \<and> occupied (snd (cancel_handler uc reason rid d)) (reg_event r)
         = Some (currentCount e - 1)
     \<and> status_after (snd (attendance_handler um True rid d)) rid = Some Attended
     \<and> occupied (snd (attendance_handler um True rid d)) (reg_event r) = Some (currentCount e)
     \<and> status_after (snd (attendance_handler um False rid d)) rid = Some Absent
     \<and> occupied (snd (attendance_handler um False rid d)) (reg_event r) = Some (currentCount e))"
proof -
  let ?c = "r\<lparr>reg_status := Cancelled, cancellationReason := reason\<rparr>"
  have id: "reg_id r = rid" using f by (rule findById_reg_id)
  have occ: "occupied d (reg_event r) = Some (currentCount e)"
    using e by (simp add: occupied_def)
  have canc: "cancel_handler uc reason rid d =
      (Resp 200 ''Registration cancelled successfully'',
       inc_currentCount (reg_event r) (- 1) (save ?c d))"
    using f e c by (auto simp add: cancel_handler_def Let_def)
  have cs: "status_after (snd (cancel_handler uc reason rid d)) rid = Some Cancelled"
    using findById_save[OF f, of ?c] id by (simp add: canc status_after_def)
  have co: "occupied (snd (cancel_handler uc reason rid d)) (reg_event r)
      = Some (currentCount e - 1)"
    using occupied_inc[of "save ?c d" "reg_event r" e "- 1"] e by (simp add: canc)
  have P: "reg_status r = Pending \<Longrightarrow>
       status_after (snd (decide_handler ua True reason rid d)) rid = Some Approved
     \<and> occupied (snd (decide_handler ua True reason rid d)) (reg_event r) = Some (currentCount e)
     \<and> status_after (snd (decide_handler ua False reason rid d)) rid = Some Rejected
     \<and> occupied (snd (decide_handler ua False reason rid d)) (reg_event r)
         = Some (currentCount e - 1)"
    using findById_save[OF f, of "approve r ua"] findById_save[OF f, of "reject r reason ua"]
      id occ occupied_inc[of "save (reject r reason ua) d" "reg_event r" e "- 1"] e
    by (simp add: decide_pending[OF f e a] status_after_def approve_def reject_def)
  have A: "reg_status r = Approved \<Longrightarrow>
       status_after (snd (attendance_handler um True rid d)) rid = Some Attended
     \<and> occupied (snd (attendance_handler um True rid d)) (reg_event r) = Some (currentCount e)
     \<and> status_after (snd (attendance_handler um False rid d)) rid = Some Absent
     \<and> occupied (snd (attendance_handler um False rid d)) (reg_event r) = Some (currentCount e)"
    using findById_save[OF f, of "markAttendance r True"]
      findById_save[OF f, of "markAttendance r False"] id occ f e m
    by (simp add: attendance_handler_def status_after_def markAttendance_def)
  show ?thesis using P A cs co by blast
qed


theorem capacity_delta_per_transition_witness:
  "findById 200 (db_with 2 (seminar\<lparr>currentCount := 1\<rparr>) [stored 200 10 2 Pending])
      = Some (stored 200 10 2 Pending)
   \<and> occupied (snd (decide_handler host True None 200
        (db_with 2 (seminar\<lparr>currentCount := 1\<rparr>) [stored 200 10 2 Pending]))) 2 = Some 1
   \<and> occupied (snd (decide_handler host False None 200
        (db_with 2 (seminar\<lparr>currentCount := 1\<rparr>) [stored 200 10 2 Pending]))) 2 = Some 0
   \<and> occupied (snd (cancel_handler alice None 200
        (db_with 2 (seminar\<lparr>currentCount := 1\<rparr>) [stored 200 10 2 Pending]))) 2 = Some 0
   \<and> findById 100 (db_with 3 (gala\<lparr>currentCount := 1\<rparr>) [stored 100 10 3 Approved])
      = Some (stored 100 10 3 Approved)
   \<and> occupied (snd (cancel_handler alice None 100
        (db_with 3 (gala\<lparr>currentCount := 1\<rparr>) [stored 100 10 3 Approved]))) 3 = Some 0
   \<and> status_after (snd (attendance_handler host True 100
        (db_with 3 (gala\<lparr>currentCount := 1\<rparr>) [stored 100 10 3 Approved]))) 100 = Some Attended
   \<and> occupied (snd (attendance_handler host True 100
        (db_with 3 (gala\<lparr>currentCount := 1\<rparr>) [stored 100 10 3 Approved]))) 3 = Some 1
   \<and> status_after (snd (attendance_handler host False 100
        (db_with 3 (gala\<lparr>currentCount := 1\<rparr>) [stored 100 10 3 Approved]))) 100 = Some Absent
   \<and> occupied (snd (attendance_handler host False 100
        (db_with 3 (gala\<lparr>currentCount := 1\<rparr>) [stored 100 10 3 Approved]))) 3 = Some 1"
proof -
  let ?dp = "db_with 2 (seminar\<lparr>currentCount := 1\<rparr>) [stored 200 10 2 Pending]"
  let ?da = "db_with 3 (gala\<lparr>currentCount := 1\<rparr>) [stored 100 10 3 Approved]"
  have fp: "findById 200 ?dp = Some (stored 200 10 2 Pending)"
    by (simp add: findById_def db_with_def stored_def)
  have ep: "events ?dp (reg_event (stored 200 10 2 Pending)) = Some (seminar\<lparr>currentCount := 1\<rparr>)"
    by (simp add: db_with_def stored_def)
  have ap: "canApprove host (seminar\<lparr>currentCount := 1\<rparr>)"
    by (simp add: canApprove_def host_def seminar_def)
  have mp: "canMarkAttendance host (seminar\<lparr>currentCount := 1\<rparr>)"
    by (simp add: canMarkAttendance_def host_def seminar_def)
  have cp: "reg_user (stored 200 10 2 Pending) = user_id alice
      \<or> organizer (seminar\<lparr>currentCount := 1\<rparr>) = user_id alice \<or> user_role alice = Admin"
    by (simp add: stored_def alice_def)
  have fa: "findById 100 ?da = Some (stored 100 10 3 Approved)"
    by (simp add: findById_def db_with_def stored_def)
  have ea: "events ?da (reg_event (stored 100 10 3 Approved)) = Some (gala\<lparr>currentCount := 1\<rparr>)"
    by (simp add: db_with_def stored_def)
  have aa: "canApprove host (gala\<lparr>currentCount := 1\<rparr>)"
    by (simp add: canApprove_def host_def gala_def)
  have ma: "canMarkAttendance host (gala\<lparr>currentCount := 1\<rparr>)"
    by (simp add: canMarkAttendance_def host_def gala_def)
  have ca: "reg_user (stored 100 10 3 Approved) = user_id alice
      \<or> organizer (gala\<lparr>currentCount := 1\<rparr>) = user_id alice \<or> user_role alice = Admin"
    by (simp add: stored_def alice_def)
  have sp: "reg_status (stored 200 10 2 Pending) = Pending"
    and sa: "reg_status (stored 100 10 3 Approved) = Approved"
    and rp: "reg_event (stored 200 10 2 Pending) = 2"
    and ra: "reg_event (stored 100 10 3 Approved) = 3"
    by (simp_all add: stored_def)
  show ?thesis
    using capacity_delta_per_transition[OF fp ep ap mp cp, of None]
      capacity_delta_per_transition[OF fa ea aa ma ca, of None] fp fa
    by (simp add: sp sa rp ra)
qed

section \<open>Cancelling a registration that holds no place\<close>

text \<open>
  C4. Cancel succeeds only on a capacity-holding registration; on a rejected, cancelled
  or absent one it fails and changes neither the status nor the occupied count. The
  cancel route checks only who the caller is: alice's pending registration for the
  seminar is rejected by the organizer (count back to 0), her cancel of it is answered
  200, the status becomes cancelled and the count becomes -1.
\<close>

theorem cancel_of_rejected_registration:
  "status_after (run_ops 0 [Register alice 2, Decide host False 200] db_seminar) 200
      = Some Rejected
   \<and> occupied (run_ops 0 [Register alice 2, Decide host False 200] db_seminar) 2 = Some 0
   \<and> fst (cancel_handler alice None 200
        (run_ops 0 [Register alice 2, Decide host False 200] db_seminar))
      = Resp 200 ''Registration cancelled successfully''
   \<and> status_after (snd (cancel_handler alice None 200
        (run_ops 0 [Register alice 2, Decide host False 200] db_seminar))) 200 = Some Cancelled
   \<and> occupied (snd (cancel_handler alice None 200
        (run_ops 0 [Register alice 2, Decide host False 200] db_seminar))) 2 = Some (- 1)"
  by code_simp

section \<open>The occupancy figure of admission\<close>

text \<open>
  C5, as the claim states it: the figure admission compares with \<open>maxCapacity\<close> is the
  number of the event's registrations that are pending, approved or attended. The
  query at lines 54-57 counts approved and pending only: with alice attended on the
  single-place event, the specification's figure is 1, the counted figure is 0 and bob
  is admitted.
\<close>

theorem attended_not_counted_counterexample:
  "status_after (run_ops 0 [Register alice 1, Attendance host True 100] db_gala) 100
      = Some Attended
   \<and> occupancy_spec 1 (run_ops 0 [Register alice 1, Attendance host True 100] db_gala)
      = maxCapacity gala
   \<and> currentRegistrations 1 (run_ops 0 [Register alice 1, Attendance host True 100] db_gala) = 0
   \<and> fst (register_handler 0 bob 1
        (run_ops 0 [Register alice 1, Attendance host True 100] db_gala))
      = Resp 201 ''Registration successful''"
  by code_simp

text \<open>
  C5, amended. The occupancy figure that admission compares against \<open>maxCapacity\<close> is
  the number of registrations of the event whose status is pending or approved: for a
  published event, an eligible caller without a registration for it and a deadline not
  passed, Register answers "Event is full" exactly when that number is at least
  \<open>maxCapacity\<close>. A registration counts iff its status is one of those two; attended
  does not count.
\<close>

theorem admission_occupancy_figure:
  assumes "events d eid = Some e" "ev_status e = Published" "canUserRegister e u"
    and "\<not> list_ex (\<lambda>r. reg_user r = user_id u \<and> reg_event r = eid) (registrations d)"
    and "\<not> (case deadline e of None \<Rightarrow> False | Some dl \<Rightarrow> dl < now)"
  shows "currentRegistrations eid d
           = int (length (filter (\<lambda>r. reg_event r = eid
                                      \<and> (reg_status r = Pending \<or> reg_status r = Approved))
                                 (registrations d)))
       \<and> (fst (register_handler now u eid d) = Resp 400 ''Event is full''
            \<longleftrightarrow> maxCapacity e \<le> currentRegistrations eid d)"
proof -
  have n: "find (\<lambda>r. reg_user r = user_id u \<and> reg_event r = eid) (registrations d) = None"
    using assms(4) by (simp add: find_None_list_ex)
  have q: "(\<lambda>r. reg_event r = eid \<and> reg_status r \<in> set [Approved, Pending])
      = (\<lambda>r. reg_event r = eid \<and> (reg_status r = Pending \<or> reg_status r = Approved))"
    by auto
  have c: "currentRegistrations eid d
      = int (length (filter (\<lambda>r. reg_event r = eid
                                 \<and> (reg_status r = Pending \<or> reg_status r = Approved))
                            (registrations d)))"
    unfolding currentRegistrations_def countDocuments_def q ..
  have r: "fst (register_handler now u eid d) = Resp 400 ''Event is full''
      \<longleftrightarrow> maxCapacity e \<le> currentRegistrations eid d"
    using assms(1,2,3,5) n
    by (simp add: register_handler_def register_check_def register_commit_def
        split: option.split)
  show ?thesis using c r by simp
qed

theorem admission_occupancy_figure_witness:
  "currentRegistrations 2 (db_with 2 seminar
       [stored 200 10 2 Pending, stored 201 12 2 Approved, stored 202 13 2 Attended]) = 2
   \<and> maxCapacity seminar = 2
   \<and> fst (register_handler 0 bob 2 (db_with 2 seminar
       [stored 200 10 2 Pending, stored 201 12 2 Approved, stored 202 13 2 Attended]))
      = Resp 400 ''Event is full''"
proof -
  let ?d = "db_with 2 seminar
       [stored 200 10 2 Pending, stored 201 12 2 Approved, stored 202 13 2 Attended]"
  have e: "events ?d 2 = Some seminar" by (simp add: db_with_def)
  have p: "ev_status seminar = Published" by (simp add: seminar_def)
  have el: "canUserRegister seminar bob" by (simp add: canUserRegister_def seminar_def)
  have n: "\<not> list_ex (\<lambda>r. reg_user r = user_id bob \<and> reg_event r = 2) (registrations ?d)"
    by (simp add: db_with_def stored_def bob_def)
  have dl: "\<not> (case deadline seminar of None \<Rightarrow> False | Some dl \<Rightarrow> dl < 0)"
    by (simp add: seminar_def)
  have m: "maxCapacity seminar = 2" by (simp add: seminar_def)
  have l: "int (length (filter (\<lambda>r. reg_event r = 2
                                   \<and> (reg_status r = Pending \<or> reg_status r = Approved))
                               (registrations ?d))) = 2"
    by (simp add: db_with_def stored_def)
  show ?thesis using admission_occupancy_figure[OF e p el n dl] m l by simp
qed


section \<open>Already registered\<close>

text \<open>
  C6, as the claim states it: a user whose only earlier registration for the event is
  terminal is not refused as already registered. The lookup at lines 35-38 is by user
  and event alone: alice registers, cancels, and her next Register is refused with "You
  are already registered for this event".
\<close>

theorem terminal_registration_blocks_counterexample:
  "status_after (run_ops 0 [Register alice 1, Cancel alice 100] db_gala) 100 = Some Cancelled
   \<and> currentRegistrations 1 (run_ops 0 [Register alice 1, Cancel alice 100] db_gala) = 0
   \<and> fst (register_handler 0 alice 1 (run_ops 0 [Register alice 1, Cancel alice 100] db_gala))
      = Resp 400 ''You are already registered for this event''"
  by code_simp

text \<open>
  C6, amended. For a published event and an eligible caller, Register fails with "You
  are already registered for this event" if and only if a registration of any status,
  terminal or not, exists for the (user, event) pair.
\<close>

theorem already_registered_iff:
  assumes "events d eid = Some e" "ev_status e = Published" "canUserRegister e u"
  shows "fst (register_handler now u eid d) = Resp 400 ''You are already registered for this event''
         \<longleftrightarrow> list_ex (\<lambda>r. reg_user r = user_id u \<and> reg_event r = eid) (registrations d)"
proof (cases "find (\<lambda>r. reg_user r = user_id u \<and> reg_event r = eid) (registrations d)")
  case None
  then have "\<not> list_ex (\<lambda>r. reg_user r = user_id u \<and> reg_event r = eid) (registrations d)"
    by (simp add: find_None_list_ex)
  moreover have "fst (register_handler now u eid d)
      \<noteq> Resp 400 ''You are already registered for this event''"
    using assms None
    by (simp add: register_handler_def register_check_def register_commit_def
        split: option.split)
  ultimately show ?thesis by simp
next
  case (Some x)
  then have "list_ex (\<lambda>r. reg_user r = user_id u \<and> reg_event r = eid) (registrations d)"
    using find_None_list_ex[of "\<lambda>r. reg_user r = user_id u \<and> reg_event r = eid" "registrations d"]
    by simp
  moreover have "fst (register_handler now u eid d)
      = Resp 400 ''You are already registered for this event''"
    using assms Some by (simp add: register_handler_def register_check_def)
  ultimately show ?thesis by simp
qed

theorem already_registered_iff_witness:
  "list_ex (\<lambda>r. reg_user r = user_id alice \<and> reg_event r = 2 \<and> reg_status r = Absent)
       (registrations (db_with 2 seminar [stored 200 10 2 Absent]))
   \<and> fst (register_handler 0 alice 2 (db_with 2 seminar [stored 200 10 2 Absent]))
      = Resp 400 ''You are already registered for this event''
   \<and> fst (register_handler 0 bob 2 (db_with 2 seminar [stored 200 10 2 Absent]))
      \<noteq> Resp 400 ''You are already registered for this event''"
proof -
  let ?d = "db_with 2 seminar [stored 200 10 2 Absent]"
  have e: "events ?d 2 = Some seminar" by (simp add: db_with_def)
  have p: "ev_status seminar = Published" by (simp add: seminar_def)
  have ea: "canUserRegister seminar alice" by (simp add: canUserRegister_def seminar_def)
  have eb: "canUserRegister seminar bob" by (simp add: canUserRegister_def seminar_def)
  have xa: "list_ex (\<lambda>r. reg_user r = user_id alice \<and> reg_event r = 2) (registrations ?d)"
    by (simp add: db_with_def stored_def alice_def)
  have xb: "\<not> list_ex (\<lambda>r. reg_user r = user_id bob \<and> reg_event r = 2) (registrations ?d)"
    by (simp add: db_with_def stored_def bob_def)
  have st: "list_ex (\<lambda>r. reg_user r = user_id alice \<and> reg_event r = 2 \<and> reg_status r = Absent)
       (registrations ?d)"
    by (simp add: db_with_def stored_def alice_def)
  show ?thesis
    using already_registered_iff[OF e p ea, of 0] already_registered_iff[OF e p eb, of 0] xa xb st
    by simp
qed

section \<open>Registration deadline\<close>

text \<open>
  C7, as the claim states it: a Register call made at the deadline instant fails with
  the deadline error. The test at line 47 is \<^verbatim>\<open>new Date() > deadline\<close>: at the instant
  itself (1000) alice is admitted.
\<close>

theorem deadline_instant_counterexample:
  "deadline gala = Some 1000
   \<and> fst (register_handler 1000 alice 1 db_gala) = Resp 201 ''Registration successful''
   \<and> occupied (snd (register_handler 1000 alice 1 db_gala)) 1 = Some 1
   \<and> fst (register_handler 1001 alice 1 db_gala) = Resp 400 ''Registration deadline has passed''"
  by code_simp

text \<open>
  C7, amended. For a published event with a deadline, an eligible caller and no
  registration of the caller for the event, Register fails with "Registration deadline
  has passed" exactly when the call is made strictly after the deadline; the check
  comes before the capacity check, so this is the answer whether or not the event is
  full, and the database (the occupied count and the registrations) is left unchanged.
\<close>

theorem deadline_enforcement:
  assumes "events d eid = Some e" "ev_status e = Published" "canUserRegister e u"
    and "\<not> list_ex (\<lambda>r. reg_user r = user_id u \<and> reg_event r = eid) (registrations d)"
    and "deadline e = Some dl"
  shows "(fst (register_handler now u eid d) = Resp 400 ''Registration deadline has passed''
            \<longleftrightarrow> dl < now)
       \<and> (dl < now \<longrightarrow>
            register_handler now u eid d = (Resp 400 ''Registration deadline has passed'', d))"
proof -
  have n: "find (\<lambda>r. reg_user r = user_id u \<and> reg_event r = eid) (registrations d) = None"
    using assms(4) by (simp add: find_None_list_ex)
  show ?thesis using assms(1,2,3,5) n
    by (simp add: register_handler_def register_check_def register_commit_def
        split: option.split)
qed

theorem deadline_enforcement_witness:
  "maxCapacity gala \<le> currentRegistrations 3
       (db_with 3 (gala\<lparr>currentCount := 1\<rparr>) [stored 100 10 3 Approved])
   \<and> register_handler 2000 bob 3 (db_with 3 (gala\<lparr>currentCount := 1\<rparr>) [stored 100 10 3 Approved])
      = (Resp 400 ''Registration deadline has passed'',
         db_with 3 (gala\<lparr>currentCount := 1\<rparr>) [stored 100 10 3 Approved])"
proof -
  let ?d = "db_with 3 (gala\<lparr>currentCount := 1\<rparr>) [stored 100 10 3 Approved]"
  have e: "events ?d 3 = Some (gala\<lparr>currentCount := 1\<rparr>)" by (simp add: db_with_def)
  have p: "ev_status (gala\<lparr>currentCount := 1\<rparr>) = Published" by (simp add: gala_def)
  have el: "canUserRegister (gala\<lparr>currentCount := 1\<rparr>) bob"
    by (simp add: canUserRegister_def gala_def)
  have n: "\<not> list_ex (\<lambda>r. reg_user r = user_id bob \<and> reg_event r = 3) (registrations ?d)"
    by (simp add: db_with_def stored_def bob_def)
  have dl: "deadline (gala\<lparr>currentCount := 1\<rparr>) = Some 1000" by (simp add: gala_def)
  have full: "maxCapacity gala \<le> currentRegistrations 3 ?d"
    by (simp add: currentRegistrations_def countDocuments_def db_with_def stored_def gala_def)
  show ?thesis using deadline_enforcement[OF e p el n dl, of 2000] full by simp
qed

section \<open>Snapshot on subscribe\<close>

text \<open>
  C8. For every event, a new Subscribe call immediately delivers to that subscriber a
  synthetic snapshot event carrying the event's current occupied count, with no Publish
  needed: the subscriber's deliveries are extended by exactly one event, of kind
  Snapshot, for that event, whose \<open>occupiedCountAfter\<close> is the router's current count.
\<close>

theorem subscribe_delivers_snapshot:
  "delivered (Subscribe now eventId observer rt) observer
     = delivered rt observer @ [snapshot rt eventId now]
   \<and> de_kind (last (delivered (Subscribe now eventId observer rt) observer)) = Snapshot
   \<and> de_eventId (last (delivered (Subscribe now eventId observer rt) observer)) = eventId
   \<and> occupiedCountAfter (last (delivered (Subscribe now eventId observer rt) observer))
       = occupiedCount rt eventId"
  by (simp add: Subscribe_def snapshot_def)

theorem subscribe_delivers_snapshot_witness:
  "occupiedCount rt_seven 1 = 7
   \<and> delivered rt_seven 4 = []
   \<and> map occupiedCountAfter (delivered (Subscribe 50 1 4 rt_seven) 4) = [7]
   \<and> map de_kind (delivered (Subscribe 50 1 4 rt_seven) 4) = [Snapshot]"
  using subscribe_delivers_snapshot[of 50 1 4 rt_seven]
  by (simp add: rt_seven_def snapshot_def)

section \<open>Bulk approval\<close>

text \<open>
  C10. The bulk approval operation processes only registrations whose current status is
  pending. The result list holds, in stored order, the ids of the stored registrations
  that are in the input list and pending. An id whose registration has any other status
  does not occur in the results, with no error entry for it: the operation is answered
  200 and that registration is left as it was, whereas the single Decide on it, by an
  authorised caller, is answered 400 "Registration is not pending approval". Ids are
  unique in the collection, as \<^verbatim>\<open>_id\<close> is.
\<close>

theorem bulk_approve_skips_non_pending:
  assumes f: "findById rid d = Some r" and np: "reg_status r \<noteq> Pending"
    and dist: "distinct (map reg_id (registrations d))"
    and e: "events d (reg_event r) = Some e" and a: "canApprove ua e"
  shows "fst (fst (bulk_approve_handler u (Some ids) approved reason d))
           = Resp 200 (if approved then ''Bulk approval completed''
                       else ''Bulk rejection completed'')
       \<and> map fst (snd (fst (bulk_approve_handler u (Some ids) approved reason d)))
           = map reg_id (filter (\<lambda>x. reg_id x \<in> set ids \<and> reg_status x = Pending)
                                (registrations d))
       \<and> rid \<notin> fst ` set (snd (fst (bulk_approve_handler u (Some ids) approved reason d)))
       \<and> findById rid (snd (bulk_approve_handler u (Some ids) approved reason d)) = Some r
       \<and> decide_handler ua approved reason rid d
           = (Resp 400 ''Registration is not pending approval'', d)"
proof -
  obtain results d1 where l: "bulk_loop u approved reason (bulk_find ids d) [] d = (results, d1)"
    by (cases "bulk_loop u approved reason (bulk_find ids d) [] d")
  have h: "bulk_approve_handler u (Some ids) approved reason d =
     ((Resp 200 (if approved then ''Bulk approval completed'' else ''Bulk rejection completed''),
       results), d1)"
    by (simp add: bulk_approve_handler_def l)
  have ids: "map fst results = map reg_id (bulk_find ids d)"
    using bulk_loop_ids[of u approved reason "bulk_find ids d" "[]" d] l by simp
  have notin: "rid \<notin> reg_id ` set (bulk_find ids d)"
    using bulk_find_skips[OF f np dist] .
  have "set (map fst results) = reg_id ` set (bulk_find ids d)" using ids by simp
  then have om: "rid \<notin> fst ` set results" using notin by simp
  have keep: "findById rid d1 = Some r"
    using bulk_loop_other[OF notin, of u approved reason "[]" d] l f by simp
  have dec: "decide_handler ua approved reason rid d
      = (Resp 400 ''Registration is not pending approval'', d)"
    using f np e a by (simp add: decide_handler_def)
  show ?thesis using h ids om keep dec by (simp add: bulk_find_def)
qed

theorem bulk_approve_skips_non_pending_witness:
  "snd (fst (bulk_approve_handler host (Some [201, 200, 999]) True None
        (db_with 2 seminar [stored 200 10 2 Pending, stored 201 11 2 Approved])))
      = [(200, True)]
   \<and> status_after (snd (bulk_approve_handler host (Some [201, 200, 999]) True None
        (db_with 2 seminar [stored 200 10 2 Pending, stored 201 11 2 Approved]))) 200
      = Some Approved
   \<and> findById 201 (snd (bulk_approve_handler host (Some [201, 200, 999]) True None
        (db_with 2 seminar [stored 200 10 2 Pending, stored 201 11 2 Approved])))
      = Some (stored 201 11 2 Approved)
   \<and> fst (decide_handler host True None 201
        (db_with 2 seminar [stored 200 10 2 Pending, stored 201 11 2 Approved]))
      = Resp 400 ''Registration is not pending approval''"
proof -
  let ?d = "db_with 2 seminar [stored 200 10 2 Pending, stored 201 11 2 Approved]"
  have f: "findById 201 ?d = Some (stored 201 11 2 Approved)"
    by (simp add: findById_def db_with_def stored_def)
  have np: "reg_status (stored 201 11 2 Approved) \<noteq> Pending" by (simp add: stored_def)
  have dist: "distinct (map reg_id (registrations ?d))" by (simp add: db_with_def stored_def)
  have e: "events ?d (reg_event (stored 201 11 2 Approved)) = Some seminar"
    by (simp add: db_with_def stored_def)
  have a: "canApprove host seminar" by (simp add: canApprove_def host_def seminar_def)
  have res: "snd (fst (bulk_approve_handler host (Some [201, 200, 999]) True None ?d))
      = [(200, True)]"
    by code_simp
  have st: "status_after (snd (bulk_approve_handler host (Some [201, 200, 999]) True None ?d)) 200
      = Some Approved"
    by code_simp
  show ?thesis
    using bulk_approve_skips_non_pending[OF f np dist e a, of host "[201, 200, 999]" True None]
      res st
    by simp
qed

end
